theory Spec2Isabelle
  imports Complex_Main "HOL-Library.Sublist"
begin

section \<open>Python strings\<close>

text \<open>
  A Python \<open>str\<close> is a sequence of Unicode code points and \<open>len\<close> counts code points,
  so a string is a list of code points. \<open>lit\<close> reads an ASCII literal; the accented
  letters of the source's tables are written by their code point
  (a, e, i and o with acute accent: 225, 233, 237 and 243).
\<close>

type_synonym ustr = "nat list"

definition lit :: "string \<Rightarrow> ustr" where
  "lit s = map of_char s"

text \<open>\<open>p in s\<close> on two strings: \<open>p\<close> occurs in \<open>s\<close> as a contiguous substring.\<close>

fun str_in :: "ustr \<Rightarrow> ustr \<Rightarrow> bool" where
  "str_in p [] = (p = [])"
| "str_in p (c # cs) = (prefix p (c # cs) \<or> str_in p cs)"

text \<open>
  \<open>str.lower\<close> and the character class \<open>\d\<close> of \<open>re\<close> belong to the Python library
  (both cover all of Unicode). The functions below take them as the parameters
  \<open>lower\<close> and \<open>digit\<close>, so every general theorem holds for Python's own. For concrete
  inputs over Basic Latin and Latin-1 they are \<open>latin1_lower\<close> and \<open>ascii_digit\<close>.
\<close>

definition lower_cp :: "nat \<Rightarrow> nat" where
  "lower_cp c =
     (if 65 \<le> c \<and> c \<le> 90 then c + 32
      else if 192 \<le> c \<and> c \<le> 222 \<and> c \<noteq> 215 then c + 32
      else c)"

definition latin1_lower :: "ustr \<Rightarrow> ustr" where
  "latin1_lower s = map lower_cp s"

definition ascii_digit :: "nat \<Rightarrow> bool" where
  "ascii_digit c = (48 \<le> c \<and> c \<le> 57)"

section \<open>Regular expressions (\<open>re.search\<close>)\<close>

datatype rexp =
    Zero
  | One
  | Chr nat
  | Digit
  | Alt rexp rexp
  | Seq rexp rexp
  | Star rexp

definition Plus :: "rexp \<Rightarrow> rexp" where
  "Plus r = Seq r (Star r)"

definition Opt :: "rexp \<Rightarrow> rexp" where
  "Opt r = Alt r One"

fun Str :: "ustr \<Rightarrow> rexp" where
  "Str [] = One"
| "Str (c # cs) = Seq (Chr c) (Str cs)"

fun nullable :: "rexp \<Rightarrow> bool" where
  "nullable Zero = False"
| "nullable One = True"
| "nullable (Chr c) = False"
| "nullable Digit = False"
| "nullable (Alt r s) = (nullable r \<or> nullable s)"
| "nullable (Seq r s) = (nullable r \<and> nullable s)"
| "nullable (Star r) = True"

text \<open>\<open>deriv digit c r\<close> matches what \<open>r\<close> matches after a leading \<open>c\<close>.\<close>

fun deriv :: "(nat \<Rightarrow> bool) \<Rightarrow> nat \<Rightarrow> rexp \<Rightarrow> rexp" where
  "deriv digit c Zero = Zero"
| "deriv digit c One = Zero"
| "deriv digit c (Chr d) = (if c = d then One else Zero)"
| "deriv digit c Digit = (if digit c then One else Zero)"
| "deriv digit c (Alt r s) = Alt (deriv digit c r) (deriv digit c s)"
| "deriv digit c (Seq r s) =
     (if nullable r then Alt (Seq (deriv digit c r) s) (deriv digit c s)
      else Seq (deriv digit c r) s)"
| "deriv digit c (Star r) = Seq (deriv digit c r) (Star r)"

text \<open>\<open>re.match\<close>: some prefix of the text matches.\<close>

fun re_match :: "(nat \<Rightarrow> bool) \<Rightarrow> rexp \<Rightarrow> ustr \<Rightarrow> bool" where
  "re_match digit r [] = nullable r"
| "re_match digit r (c # cs) = (nullable r \<or> re_match digit (deriv digit c r) cs)"

text \<open>\<open>re.search\<close>, as a truth value: a match starts at some position of the text.\<close>

fun re_search :: "(nat \<Rightarrow> bool) \<Rightarrow> rexp \<Rightarrow> ustr \<Rightarrow> bool" where
  "re_search digit r [] = nullable r"
| "re_search digit r (c # cs) = (re_match digit r (c # cs) \<or> re_search digit r cs)"

text \<open>The pattern \<open>s/\.|soles|\d+(\.\d+)?\<close> of the cost rule.\<close>

definition money_re :: rexp where
  "money_re =
     Alt (Str (lit ''s/.''))
       (Alt (Str (lit ''soles''))
            (Seq (Plus Digit) (Opt (Seq (Chr 46) (Plus Digit)))))"

text \<open>The pattern \<open>\d{1,2}\<close> of the date rule.\<close>

definition date_re :: rexp where
  "date_re = Seq Digit (Opt Digit)"

section \<open>Query classification\<close>

text \<open>
  \<open>QUERY_CLASSIFICATIONS\<close>: a dict literal, iterated by \<open>.items()\<close> in insertion
  order, hence an association list.
\<close>

definition QUERY_CLASSIFICATIONS :: "(ustr \<times> ustr list) list" where
  "QUERY_CLASSIFICATIONS =
    [(lit ''matr'' @ [237] @ lit ''cula'',
        [lit ''matr'' @ [237] @ lit ''cula'', lit ''matricula'', lit ''matricularme'',
         lit ''inscripci'' @ [243] @ lit ''n'']),
     (lit ''traslado'', [lit ''traslado'', lit ''trasladar'', lit ''cambiar de instituto'']),
     (lit ''reserva'', [lit ''reserva'', lit ''reservar'']),
     (lit ''reincorporaci'' @ [243] @ lit ''n'',
        [lit ''reincorporaci'' @ [243] @ lit ''n'', lit ''reincorporacion'', lit ''volver'']),
     (lit ''cambio_turno'', [lit ''cambio de turno'', lit ''turno'', lit ''horario'']),
     (lit ''titulaci'' @ [243] @ lit ''n'',
        [lit ''titulaci'' @ [243] @ lit ''n'', lit ''t'' @ [237] @ lit ''tulo'',
         lit ''bachiller'', lit ''titulado'']),
     (lit ''costos'',
        [lit ''costo'', lit ''precio'', lit ''pago'', lit ''cu'' @ [225] @ lit ''nto'',
         lit ''tarifa'']),
     (lit ''fechas'',
        [lit ''fecha'', lit ''plazo'', lit ''cu'' @ [225] @ lit ''ndo'', lit ''cronograma'']),
     (lit ''requisitos'', [lit ''requisito'', lit ''documento'', lit ''necesito'']),
     (lit ''vacantes'', [lit ''vacante'', lit ''cupos'', lit ''disponibilidad'']),
     (lit ''carreras'', [lit ''carrera'', lit ''programa'', lit ''especialidad'']),
     (lit ''certificados'',
        [lit ''certificado'', lit ''constancia'', lit ''r'' @ [233] @ lit ''cord'']),
     (lit ''becas'',
        [lit ''beca'', lit ''becado'', lit ''descuento'',
         lit ''exoneraci'' @ [243] @ lit ''n'']),
     (lit ''saludo'',
        [lit ''hola'', lit ''buenos d'' @ [237] @ lit ''as'', lit ''buenas tardes'',
         lit ''saludos'']),
     (lit ''despedida'',
        [lit ''gracias'', lit ''adi'' @ [243] @ lit ''s'', lit ''chau'', lit ''hasta luego''])]"

text \<open>\<open>any(kw in msg_lower for kw in keywords)\<close>\<close>

definition any_in :: "ustr list \<Rightarrow> ustr \<Rightarrow> bool" where
  "any_in keywords low = list_ex (\<lambda>kw. str_in kw low) keywords"

text \<open>The \<open>for qtype, keywords in ...items()\<close> loop of \<open>classify_query\<close>.\<close>

fun classify_loop :: "ustr \<Rightarrow> (ustr \<times> ustr list) list \<Rightarrow> ustr" where
  "classify_loop msg_lower [] = lit ''general''"
| "classify_loop msg_lower ((qtype, keywords) # rest) =
     (if any_in keywords msg_lower then qtype else classify_loop msg_lower rest)"

definition classify_query :: "(ustr \<Rightarrow> ustr) \<Rightarrow> ustr \<Rightarrow> ustr" where
  "classify_query lower message = classify_loop (lower message) QUERY_CLASSIFICATIONS"

section \<open>The usefulness judge\<close>

definition useless_phrases :: "ustr list" where
  "useless_phrases =
    [lit ''no tengo informaci'' @ [243] @ lit ''n'',
     lit ''no encuentro informaci'' @ [243] @ lit ''n'',
     lit ''no se menciona en los documentos'',
     lit ''lo siento'',
     lit ''no puedo responder'',
     lit ''no hay documentos'',
     lit ''contacta a la secretar'' @ [237] @ lit ''a'',
     lit ''no est'' @ [225] @ lit '' especificado'',
     lit ''no se proporciona'',
     lit ''no se encuentra'',
     lit ''no aparece en el texto'',
     lit ''no se detalla'',
     lit ''no cuento con la informaci'' @ [243] @ lit ''n'',
     lit ''no se indica'',
     lit ''no se menciona'',
     lit ''no dispongo de informaci'' @ [243] @ lit ''n'']"

definition money_labels :: "ustr list" where
  "money_labels =
    [lit ''costos'', lit ''matr'' @ [237] @ lit ''cula'', lit ''titulaci'' @ [243] @ lit ''n'']"

definition date_labels :: "ustr list" where
  "date_labels = [lit ''fechas'', lit ''cronograma'']"

definition months :: "ustr list" where
  "months =
    [lit ''enero'', lit ''febrero'', lit ''marzo'', lit ''abril'', lit ''mayo'', lit ''junio'',
     lit ''julio'', lit ''agosto'', lit ''septiembre'', lit ''octubre'', lit ''noviembre'',
     lit ''diciembre'']"

text \<open>
  \<open>_is_useful_response\<close>. The response is \<open>Optional[str]\<close>; \<open>not response\<close> holds for
  \<open>None\<close> and for the empty string. The rules run in the source's order and each
  \<open>return\<close> is a branch.
\<close>

definition is_useful_response ::
  "(ustr \<Rightarrow> ustr) \<Rightarrow> (nat \<Rightarrow> bool) \<Rightarrow> ustr option \<Rightarrow> ustr \<Rightarrow> bool" where
  "is_useful_response lower digit response query_type =
     (case response of
        None \<Rightarrow> False
      | Some r \<Rightarrow>
          if r = [] \<or> length r < 50 then False
          else
            let low = lower r in
            if any_in useless_phrases low then
              (if str_in (lit ''correo'') low
                  \<or> str_in (lit ''tel'' @ [233] @ lit ''fono'') low
                  \<or> str_in (lit ''presencialmente'') low
                  \<or> str_in (lit ''direcci'' @ [243] @ lit ''n'') low
               then True else False)
            else if query_type \<in> set money_labels
                    \<and> (str_in (lit ''costo'') low \<or> str_in (lit ''pago'') low
                         \<or> str_in (lit ''precio'') low)
                    \<and> \<not> re_search digit money_re low then False
            else if query_type \<in> set date_labels
                    \<and> \<not> (re_search digit date_re low \<or> any_in months low) then False
            else True)"

section \<open>Provider calls and the manager's state\<close>

text \<open>
  What \<open>model.generate_content\<close> can give back to \<open>_call_gemini\<close>: a response with a
  \<open>text\<close> attribute, one with only \<open>parts\<close>, one with neither, or an exception, of
  which the handler reads \<open>str(e)\<close>.
\<close>

datatype gemini_outcome =
    Text ustr
  | Parts "ustr list"
  | NoContent
  | Raised ustr

text \<open>
  The surroundings of the manager: the Python library functions, the configured API key,
  the clock and the two remote services. The services and the clock act on a world
  \<open>'w\<close> that the model does not inspect, so two calls with the same arguments may answer
  differently. \<open>openrouter_post\<close> stands for the HTTP exchange of \<open>_call_openrouter\<close>
  (prompt assembly, \<open>requests.post\<close>, status check, JSON extraction, with every failure
  mapped to \<open>None\<close> as its \<open>except\<close> does); \<open>gemini_generate\<close> for the SDK call of
  \<open>_call_gemini\<close>. \<open>'h\<close> is the type of the conversation history.
\<close>

record ('w, 'h) env =
  str_lower :: "ustr \<Rightarrow> ustr"
  re_digit :: "nat \<Rightarrow> bool"
  GEMINI_API_KEY :: ustr
  time_time :: "'w \<Rightarrow> real \<times> 'w"
  openrouter_post :: "ustr \<Rightarrow> ustr \<Rightarrow> ustr \<Rightarrow> ustr \<Rightarrow> 'h \<Rightarrow> 'w \<Rightarrow> ustr option \<times> 'w"
  gemini_generate :: "ustr \<Rightarrow> ustr \<Rightarrow> ustr \<Rightarrow> ustr \<Rightarrow> 'h \<Rightarrow> 'w \<Rightarrow> gemini_outcome \<times> 'w"

text \<open>
  One entry of the call log: the provider, the model and the value the call returned
  to the chain runner. The log is instrumentation: the source keeps no such list, the
  model appends an entry wherever the source performs a provider call.
\<close>

datatype call = Call (provider: ustr) (model: ustr) (returned: "ustr option")

text \<open>The attributes of \<open>AIManager\<close>, the world and the call log.\<close>

record 'w manager =
  openrouter_models :: "ustr list"
  gemini_models :: "ustr list"
  gemini_cooldown_until :: real
  gemini_consecutive_429 :: int
  world :: 'w
  calls :: "call list"

definition OPENROUTER_MODELS :: "ustr list" where
  "OPENROUTER_MODELS =
    [lit ''meta-llama/llama-3.3-70b-instruct:free'',
     lit ''google/gemma-2-9b-it:free'',
     lit ''mistralai/mistral-7b-instruct:free'']"

definition GEMINI_MODELS :: "ustr list" where
  "GEMINI_MODELS =
    [lit ''gemini-2.0-flash'', lit ''gemini-1.5-flash'', lit ''gemini-1.5-pro'']"

definition GEMINI_COOLDOWN :: real where
  "GEMINI_COOLDOWN = 60"

text \<open>\<open>AIManager.__init__\<close>\<close>

definition init :: "'w \<Rightarrow> 'w manager" where
  "init w =
     \<lparr>openrouter_models = OPENROUTER_MODELS,
      gemini_models = GEMINI_MODELS,
      gemini_cooldown_until = 0,
      gemini_consecutive_429 = 0,
      world = w,
      calls = []\<rparr>"

text \<open>Python truthiness of an \<open>Optional[str]\<close>: \<open>None\<close> and \<open>""\<close> are false.\<close>

definition truthy :: "ustr option \<Rightarrow> bool" where
  "truthy response = (case response of None \<Rightarrow> False | Some r \<Rightarrow> r \<noteq> [])"

section \<open>The rate limiter\<close>

text \<open>\<open>_can_call_gemini\<close>: fails closed without a key, else compares the clock.\<close>

definition can_call_gemini :: "('w, 'h) env \<Rightarrow> 'w manager \<Rightarrow> bool \<times> 'w manager" where
  "can_call_gemini env st =
     (if GEMINI_API_KEY env = [] then (False, st)
      else
        let (now, w) = time_time env (world st);
            st' = st\<lparr>world := w\<rparr>
        in if now < gemini_cooldown_until st' then (False, st') else (True, st'))"

text \<open>
  \<open>_handle_gemini_error\<close>, on \<open>error_str = str(error)\<close>. The two substring tests are
  case sensitive. \<open>2 ** k\<close> is \<open>2 powi k\<close>, also for a negative \<open>k\<close>.
\<close>

definition is_throttling :: "ustr \<Rightarrow> bool" where
  "is_throttling error_str =
     (str_in (lit ''429'') error_str \<or> str_in (lit ''Resource exhausted'') error_str)"

definition handle_gemini_error :: "('w, 'h) env \<Rightarrow> ustr \<Rightarrow> 'w manager \<Rightarrow> 'w manager" where
  "handle_gemini_error env error_str st =
     (if is_throttling error_str then
        let n = gemini_consecutive_429 st + 1;
            backoff = min (GEMINI_COOLDOWN * 2 powi (n - 1)) 600;
            (now, w) = time_time env (world st)
        in st\<lparr>gemini_consecutive_429 := n,
               gemini_cooldown_until := now + backoff,
               world := w\<rparr>
      else st)"


section \<open>The provider calls\<close>

definition log_call :: "ustr \<Rightarrow> ustr \<Rightarrow> ustr option \<Rightarrow> 'w manager \<Rightarrow> 'w manager" where
  "log_call p m r st = st\<lparr>calls := calls st @ [Call p m r]\<rparr>"

text \<open>\<open>_call_openrouter\<close>\<close>

definition call_openrouter ::
  "('w, 'h) env \<Rightarrow> ustr \<Rightarrow> ustr \<Rightarrow> ustr \<Rightarrow> ustr \<Rightarrow> 'h \<Rightarrow> 'w manager
     \<Rightarrow> ustr option \<times> 'w manager" where
  "call_openrouter env model_name user_message pdf_context web_context history st =
     (let (r, w) = openrouter_post env model_name user_message pdf_context web_context history
                     (world st)
      in (r, log_call (lit ''openrouter'') model_name r (st\<lparr>world := w\<rparr>)))"

text \<open>\<open>_call_gemini\<close>: an exception goes to the error handler and the call returns \<open>None\<close>.\<close>

definition call_gemini ::
  "('w, 'h) env \<Rightarrow> ustr \<Rightarrow> ustr \<Rightarrow> ustr \<Rightarrow> ustr \<Rightarrow> 'h \<Rightarrow> 'w manager
     \<Rightarrow> ustr option \<times> 'w manager" where
  "call_gemini env model_name user_message pdf_context web_context history st =
     (let (out, w) = gemini_generate env model_name user_message pdf_context web_context history
                       (world st);
          st' = st\<lparr>world := w\<rparr>
      in case out of
           Text t \<Rightarrow> (Some t, log_call (lit ''gemini'') model_name (Some t) st')
         | Parts ps \<Rightarrow>
             (Some (concat ps), log_call (lit ''gemini'') model_name (Some (concat ps)) st')
         | NoContent \<Rightarrow> (None, log_call (lit ''gemini'') model_name None st')
         | Raised e \<Rightarrow>
             (None, log_call (lit ''gemini'') model_name None (handle_gemini_error env e st')))"

section \<open>The chain runner and the orchestrator\<close>

text \<open>The \<open>for model_name in models\<close> loop of \<open>_run_model_chain\<close>.\<close>

fun chain_loop ::
  "('w, 'h) env \<Rightarrow> ustr \<Rightarrow> ustr \<Rightarrow> ustr \<Rightarrow> ustr \<Rightarrow> 'h \<Rightarrow> ustr \<Rightarrow> ustr list \<Rightarrow> 'w manager
     \<Rightarrow> ustr option \<times> 'w manager" where
  "chain_loop env prov user_message pdf_context web_context history query_type [] st =
     (None, st)"
| "chain_loop env prov user_message pdf_context web_context history query_type
     (model_name # rest) st =
     (let (response, st') =
            (if prov = lit ''openrouter''
             then call_openrouter env model_name user_message pdf_context web_context history st
             else call_gemini env model_name user_message pdf_context web_context history st)
      in if truthy response then
           (if is_useful_response (str_lower env) (re_digit env) response query_type
            then (response, st')
            else chain_loop env prov user_message pdf_context web_context history query_type
                   rest st')
         else chain_loop env prov user_message pdf_context web_context history query_type
                rest st')"

text \<open>\<open>_run_model_chain\<close>\<close>

definition chain_models :: "ustr \<Rightarrow> 'w manager \<Rightarrow> ustr list" where
  "chain_models prov st =
     (if prov = lit ''openrouter'' then openrouter_models st else gemini_models st)"

definition run_model_chain ::
  "('w, 'h) env \<Rightarrow> ustr \<Rightarrow> ustr \<Rightarrow> ustr \<Rightarrow> ustr \<Rightarrow> 'h \<Rightarrow> ustr \<Rightarrow> 'w manager
     \<Rightarrow> ustr option \<times> 'w manager" where
  "run_model_chain env prov user_message pdf_context web_context history query_type st =
     chain_loop env prov user_message pdf_context web_context history query_type
       (chain_models prov st) st"

text \<open>
  \<open>generate_response\<close>. \<open>pdf_context[:200000]\<close> is \<open>take 200000\<close>; the last line of
  the source, \<open>return or_response\<close>, is the value of both branches that fall through.
\<close>

definition generate_response ::
  "('w, 'h) env \<Rightarrow> ustr \<Rightarrow> ustr \<Rightarrow> ustr \<Rightarrow> 'h \<Rightarrow> 'w manager \<Rightarrow> ustr option \<times> 'w manager" where
  "generate_response env user_message pdf_context web_context conversation_history st =
     (let query_type = classify_query (str_lower env) user_message;
          context_limited = take 200000 pdf_context;
          (or_response, st1) =
            run_model_chain env (lit ''openrouter'') user_message context_limited web_context
              conversation_history query_type st
      in if truthy or_response
            \<and> is_useful_response (str_lower env) (re_digit env) or_response query_type
         then (or_response, st1)
         else
           let (ok, st2) = can_call_gemini env st1
           in if ok then
                let (gm_response, st3) =
                      run_model_chain env (lit ''gemini'') user_message pdf_context web_context
                        conversation_history query_type st2
                in if truthy gm_response then (gm_response, st3) else (or_response, st3)
              else (or_response, st2))"

section \<open>A scripted environment for concrete runs\<close>

text \<open>
  A world in which every provider call takes the next entry of a script: the clock
  reading when the call ends and what the call gives back. An exhausted script answers
  with no response.
\<close>

record script_world =
  clock :: real
  or_script :: "(real \<times> ustr option) list"
  gm_script :: "(real \<times> gemini_outcome) list"

definition script_env :: "ustr \<Rightarrow> (script_world, unit) env" where
  "script_env key =
     \<lparr>str_lower = latin1_lower,
      re_digit = ascii_digit,
      GEMINI_API_KEY = key,
      time_time = (\<lambda>w. (clock w, w)),
      openrouter_post = (\<lambda>model_name user_message pdf_context web_context history w.
         case or_script w of
           [] \<Rightarrow> (None, w)
         | (t, r) # rest \<Rightarrow> (r, w\<lparr>clock := t, or_script := rest\<rparr>)),
      gemini_generate = (\<lambda>model_name user_message pdf_context web_context history w.
         case gm_script w of
           [] \<Rightarrow> (NoContent, w)
         | (t, out) # rest \<Rightarrow> (out, w\<lparr>clock := t, gm_script := rest\<rparr>))\<rparr>"

text \<open>
  A question, three answers, four scripted worlds, and the states in which the runs on
  them end.
\<close>

definition question :: ustr where
  "question = lit ''Cuanto cuesta la matricula?''"

definition answer_short :: ustr where
  "answer_short = lit ''Consulte en secretaria.''"

definition answer_useful :: ustr where
  "answer_useful = lit ''La matricula cuesta 250 soles y se paga en la caja del instituto.''"

definition answer_decline :: ustr where
  "answer_decline = lit ''Lo siento, no puedo responder a esa consulta en este momento.''"

definition world_second_useful :: script_world where
  "world_second_useful =
     \<lparr>clock = 0,
      or_script = [(1, Some answer_short), (2, Some answer_useful), (3, Some answer_useful)],
      gm_script = [(4, Text answer_useful)]\<rparr>"

definition world_exhausted :: script_world where
  "world_exhausted =
     \<lparr>clock = 0,
      or_script = [(1, Some answer_short), (2, None), (3, Some answer_decline)],
      gm_script = [(4, Raised (lit ''429 Resource exhausted'')), (5, NoContent),
                   (6, Text answer_short)]\<rparr>"

definition world_gemini_answers :: script_world where
  "world_gemini_answers =
     \<lparr>clock = 0,
      or_script = [(1, None), (2, Some answer_decline), (3, Some answer_short)],
      gm_script = [(4, Text answer_useful)]\<rparr>"


definition state_second_useful :: "script_world manager" where
  "state_second_useful =
     \<lparr>openrouter_models = OPENROUTER_MODELS,
      gemini_models = GEMINI_MODELS,
      gemini_cooldown_until = 0,
      gemini_consecutive_429 = 0,
      world = \<lparr>clock = 2, or_script = [(3, Some answer_useful)],
               gm_script = [(4, Text answer_useful)]\<rparr>,
      calls = [Call (lit ''openrouter'') (OPENROUTER_MODELS ! 0) (Some answer_short),
               Call (lit ''openrouter'') (OPENROUTER_MODELS ! 1) (Some answer_useful)]\<rparr>"

definition state_openrouter_exhausted :: "script_world manager" where
  "state_openrouter_exhausted =
     \<lparr>openrouter_models = OPENROUTER_MODELS,
      gemini_models = GEMINI_MODELS,
      gemini_cooldown_until = 0,
      gemini_consecutive_429 = 0,
      world = \<lparr>clock = 3, or_script = [],
               gm_script = [(4, Raised (lit ''429 Resource exhausted'')), (5, NoContent),
                            (6, Text answer_short)]\<rparr>,
      calls = [Call (lit ''openrouter'') (OPENROUTER_MODELS ! 0) (Some answer_short),
               Call (lit ''openrouter'') (OPENROUTER_MODELS ! 1) None,
               Call (lit ''openrouter'') (OPENROUTER_MODELS ! 2) (Some answer_decline)]\<rparr>"

definition state_both_exhausted :: "script_world manager" where
  "state_both_exhausted =
     \<lparr>openrouter_models = OPENROUTER_MODELS,
      gemini_models = GEMINI_MODELS,
      gemini_cooldown_until = 64,
      gemini_consecutive_429 = 1,
      world = \<lparr>clock = 6, or_script = [], gm_script = []\<rparr>,
      calls = [Call (lit ''openrouter'') (OPENROUTER_MODELS ! 0) (Some answer_short),
               Call (lit ''openrouter'') (OPENROUTER_MODELS ! 1) None,
               Call (lit ''openrouter'') (OPENROUTER_MODELS ! 2) (Some answer_decline),
               Call (lit ''gemini'') (GEMINI_MODELS ! 0) None,
               Call (lit ''gemini'') (GEMINI_MODELS ! 1) None,
               Call (lit ''gemini'') (GEMINI_MODELS ! 2) (Some answer_short)]\<rparr>"




section \<open>The language of a regular expression\<close>

text \<open>
  The meaning of a pattern, against which the matcher above is proved: the set of
  strings it matches in full.
\<close>

definition conc :: "ustr set \<Rightarrow> ustr set \<Rightarrow> ustr set" where
  "conc A B = {a @ b | a b. a \<in> A \<and> b \<in> B}"

inductive_set star :: "ustr set \<Rightarrow> ustr set" for A :: "ustr set" where
  star_empty: "[] \<in> star A"
| star_more: "a \<in> A \<Longrightarrow> w \<in> star A \<Longrightarrow> a @ w \<in> star A"

fun lang :: "(nat \<Rightarrow> bool) \<Rightarrow> rexp \<Rightarrow> ustr set" where
  "lang digit Zero = {}"
| "lang digit One = {[]}"
| "lang digit (Chr c) = {[c]}"
| "lang digit Digit = {[c] | c. digit c}"
| "lang digit (Alt r s) = lang digit r \<union> lang digit s"
| "lang digit (Seq r s) = conc (lang digit r) (lang digit s)"
| "lang digit (Star r) = star (lang digit r)"

section \<open>Substrings and patterns\<close>

lemma str_in_sublist: "str_in p s \<longleftrightarrow> sublist p s"
  by (induction s) (simp_all add: sublist_Cons_right)

lemma nullable_lang: "nullable r \<longleftrightarrow> [] \<in> lang digit r"
  by (induction r) (auto simp: conc_def intro: star.intros)

lemma star_Cons:
  "c # w \<in> star A \<longleftrightarrow> (\<exists>u v. w = u @ v \<and> c # u \<in> A \<and> v \<in> star A)"
proof
  assume "c # w \<in> star A"
  then show "\<exists>u v. w = u @ v \<and> c # u \<in> A \<and> v \<in> star A"
  proof (induction "c # w" rule: star.induct)
    case (star_more a v)
    then show ?case by (cases a) auto
  qed
next
  assume "\<exists>u v. w = u @ v \<and> c # u \<in> A \<and> v \<in> star A"
  then obtain u v where "w = u @ v" "c # u \<in> A" "v \<in> star A" by blast
  then show "c # w \<in> star A"
    using star_more [of "c # u" A v] by simp
qed

lemma conc_Cons:
  "c # w \<in> conc A B \<longleftrightarrow>
     (\<exists>u v. w = u @ v \<and> c # u \<in> A \<and> v \<in> B) \<or> ([] \<in> A \<and> c # w \<in> B)"
  by (auto simp: conc_def Cons_eq_append_conv)

lemma lang_deriv: "w \<in> lang digit (deriv digit c r) \<longleftrightarrow> c # w \<in> lang digit r"
proof (induction r arbitrary: w)
  case (Seq r s)
  then show ?case
    by (auto simp: conc_Cons nullable_lang [of _ digit]) (auto simp: conc_def)
next
  case (Star r)
  then show ?case by (auto simp: star_Cons conc_def)
qed auto

lemma re_match_lang: "re_match digit r s \<longleftrightarrow> (\<exists>p q. s = p @ q \<and> p \<in> lang digit r)"
proof (induction s arbitrary: r)
  case Nil
  then show ?case by (simp add: nullable_lang [of _ digit])
next
  case (Cons c cs)
  show ?case
  proof
    assume "re_match digit r (c # cs)"
    then consider "nullable r" | "re_match digit (deriv digit c r) cs" by auto
    then show "\<exists>p q. c # cs = p @ q \<and> p \<in> lang digit r"
    proof cases
      case 1
      then show ?thesis using nullable_lang [of r digit] by auto
    next
      case 2
      then obtain p q where "cs = p @ q" "p \<in> lang digit (deriv digit c r)"
        using Cons.IH by blast
      then have "c # cs = (c # p) @ q \<and> c # p \<in> lang digit r"
        by (simp add: lang_deriv)
      then show ?thesis by blast
    qed
  next
    assume "\<exists>p q. c # cs = p @ q \<and> p \<in> lang digit r"
    then obtain p q where pq: "c # cs = p @ q" "p \<in> lang digit r" by blast
    show "re_match digit r (c # cs)"
    proof (cases p)
      case Nil
      then have "nullable r" using pq by (simp add: nullable_lang [of r digit])
      then show ?thesis by simp
    next
      case (Cons d p')
      then have "cs = p' @ q" "p' \<in> lang digit (deriv digit c r)"
        using pq by (auto simp: lang_deriv)
      then show ?thesis using Cons.IH by auto
    qed
  qed
qed

lemma re_search_lang:
  "re_search digit r s \<longleftrightarrow> (\<exists>a p b. s = a @ p @ b \<and> p \<in> lang digit r)"
proof (induction s)
  case Nil
  then show ?case by (simp add: nullable_lang [of _ digit])
next
  case (Cons c cs)
  have "(\<exists>a p b. c # cs = a @ p @ b \<and> p \<in> lang digit r) \<longleftrightarrow>
        (\<exists>p b. c # cs = p @ b \<and> p \<in> lang digit r) \<or>
        (\<exists>a p b. cs = a @ p @ b \<and> p \<in> lang digit r)"
    (is "?L \<longleftrightarrow> ?M \<or> ?R")
  proof
    assume ?L
    then obtain a p b where h: "c # cs = a @ p @ b" "p \<in> lang digit r" by blast
    show "?M \<or> ?R"
    proof (cases a)
      case Nil
      then show ?thesis using h by auto
    next
      case (Cons d a')
      then have "cs = a' @ p @ b" using h by simp
      then show ?thesis using h by blast
    qed
  next
    assume "?M \<or> ?R"
    then show ?L
    proof
      assume ?M
      then obtain p b where "c # cs = [] @ p @ b \<and> p \<in> lang digit r" by auto
      then show ?L by blast
    next
      assume ?R
      then obtain a p b where "c # cs = (c # a) @ p @ b \<and> p \<in> lang digit r" by auto
      then show ?L by blast
    qed
  qed
  then show ?case using Cons.IH by (simp add: re_match_lang del: re_match.simps)
qed

lemma lang_Str: "lang digit (Str w) = {w}"
  by (induction w) (auto simp: conc_def)

lemma lang_date_digit: "p \<in> lang digit date_re \<Longrightarrow> \<exists>c\<in>set p. digit c"
  by (auto simp: date_re_def Opt_def conc_def)

lemma digit_lang_date: "digit c \<Longrightarrow> [c] \<in> lang digit date_re"
proof -
  assume "digit c"
  then have "[c] @ [] \<in> conc (lang digit Digit) (lang digit (Opt Digit))"
    unfolding conc_def by (auto simp: Opt_def)
  then show ?thesis by (simp add: date_re_def)
qed

lemma re_search_date: "re_search digit date_re s \<longleftrightarrow> (\<exists>c\<in>set s. digit c)"
proof
  assume "re_search digit date_re s"
  then obtain a p b where "s = a @ p @ b" "p \<in> lang digit date_re"
    unfolding re_search_lang by blast
  then show "\<exists>c\<in>set s. digit c"
    using lang_date_digit [of p digit] by auto
next
  assume "\<exists>c\<in>set s. digit c"
  then obtain c where "c \<in> set s" "digit c" by blast
  then obtain a b where "s = a @ [c] @ b"
    by (auto simp: in_set_conv_decomp)
  moreover have "[c] \<in> lang digit date_re"
    using \<open>digit c\<close> by (rule digit_lang_date)
  ultimately show "re_search digit date_re s"
    unfolding re_search_lang by blast
qed

lemma lang_money:
  "p \<in> lang digit money_re \<Longrightarrow>
     p = lit ''s/.'' \<or> p = lit ''soles'' \<or> (\<exists>c\<in>set p. digit c)"
  by (auto simp: money_re_def Opt_def Plus_def conc_def lang_Str)

lemma re_search_money:
  "re_search digit money_re s \<longleftrightarrow>
     str_in (lit ''s/.'') s \<or> str_in (lit ''soles'') s \<or> (\<exists>c\<in>set s. digit c)"
proof
  assume "re_search digit money_re s"
  then obtain a p b where s: "s = a @ p @ b" and p: "p \<in> lang digit money_re"
    unfolding re_search_lang by blast
  from lang_money [OF p] show
    "str_in (lit ''s/.'') s \<or> str_in (lit ''soles'') s \<or> (\<exists>c\<in>set s. digit c)"
    using s by (auto simp: str_in_sublist sublist_def)
next
  assume h: "str_in (lit ''s/.'') s \<or> str_in (lit ''soles'') s \<or> (\<exists>c\<in>set s. digit c)"
  have 1: "lit ''s/.'' \<in> lang digit money_re" "lit ''soles'' \<in> lang digit money_re"
    by (simp_all add: money_re_def lang_Str)
  have 2: "[c] \<in> lang digit money_re" if "digit c" for c
  proof -
    have "[c] @ [] \<in> lang digit (Plus Digit)"
      unfolding Plus_def using that by (auto simp: conc_def intro: star_empty)
    then have "([c] @ []) @ [] \<in> lang digit (Seq (Plus Digit) (Opt (Seq (Chr 46) (Plus Digit))))"
      unfolding lang.simps(6) conc_def by (auto simp: Opt_def)
    then show ?thesis by (simp add: money_re_def)
  qed
  from h consider "sublist (lit ''s/.'') s" | "sublist (lit ''soles'') s" | c where "c \<in> set s" "digit c"
    by (auto simp: str_in_sublist)
  then show "re_search digit money_re s"
  proof cases
    case 1
    then show ?thesis unfolding re_search_lang sublist_def using \<open>lit ''s/.'' \<in> _\<close> by blast
  next
    case 2
    then show ?thesis unfolding re_search_lang sublist_def using \<open>lit ''soles'' \<in> _\<close> by blast
  next
    case 3
    then obtain a b where "s = a @ [c] @ b" by (auto simp: in_set_conv_decomp)
    then show ?thesis unfolding re_search_lang using 2 [OF 3(2)] by blast
  qed
qed

section \<open>The classifier\<close>

lemma any_in_sublist: "any_in keywords low \<longleftrightarrow> (\<exists>kw\<in>set keywords. sublist kw low)"
  by (simp add: any_in_def list_ex_iff str_in_sublist)

lemma classify_loop_no_hit:
  "\<forall>e\<in>set tab. \<not> any_in (snd e) low \<Longrightarrow> classify_loop low tab = lit ''general''"
  by (induction tab) auto

lemma classify_loop_first_hit:
  "i < length tab \<Longrightarrow> any_in (snd (tab ! i)) low \<Longrightarrow>
   \<forall>j<i. \<not> any_in (snd (tab ! j)) low \<Longrightarrow> classify_loop low tab = fst (tab ! i)"
proof (induction tab arbitrary: i)
  case Nil
  then show ?case by simp
next
  case (Cons e tab)
  obtain q kws where e: "e = (q, kws)" by (cases e)
  show ?case
  proof (cases i)
    case 0
    then show ?thesis using Cons.prems e by simp
  next
    case (Suc k)
    have "\<not> any_in kws low" using Cons.prems(3) [rule_format, of 0] Suc e by simp
    moreover have "classify_loop low tab = fst (tab ! k)"
    proof (rule Cons.IH)
      show "k < length tab" using Cons.prems(1) Suc by simp
      show "any_in (snd (tab ! k)) low" using Cons.prems(2) Suc by simp
      show "\<forall>j<k. \<not> any_in (snd (tab ! j)) low"
        using Cons.prems(3) Suc by (metis Suc_less_eq nth_Cons_Suc)
    qed
    ultimately show ?thesis using e Suc by simp
  qed
qed

lemma classify_loop_range:
  "classify_loop low tab \<in> fst ` set tab \<union> {lit ''general''}"
  by (induction tab) force+

text \<open>
  Claim C5. For every message, \<open>classify_query\<close> returns the label of the first entry
  of \<open>QUERY_CLASSIFICATIONS\<close>, in the order of the table, one of whose keywords occurs
  in the lowercased message; it returns \<open>general\<close> when no keyword of any entry occurs;
  and the result is always one of the table's labels or \<open>general\<close>, for every input
  (the function is total, so the empty message has a label too).
\<close>

theorem classify_query_first_match:
  "((\<forall>e\<in>set QUERY_CLASSIFICATIONS. \<not> any_in (snd e) (lower message))
      \<longrightarrow> classify_query lower message = lit ''general'')
   \<and> (\<forall>i<length QUERY_CLASSIFICATIONS.
        any_in (snd (QUERY_CLASSIFICATIONS ! i)) (lower message)
        \<and> (\<forall>j<i. \<not> any_in (snd (QUERY_CLASSIFICATIONS ! j)) (lower message))
        \<longrightarrow> classify_query lower message = fst (QUERY_CLASSIFICATIONS ! i))
   \<and> classify_query lower message \<in> fst ` set QUERY_CLASSIFICATIONS \<union> {lit ''general''}"
  unfolding classify_query_def
  using classify_loop_no_hit classify_loop_first_hit classify_loop_range by blast

theorem classify_query_first_match_witness:
  "2 < length QUERY_CLASSIFICATIONS
   \<and> any_in (snd (QUERY_CLASSIFICATIONS ! 2))
        (latin1_lower (lit ''Hola, quiero el PRECIO de la reserva''))
   \<and> \<not> any_in (snd (QUERY_CLASSIFICATIONS ! 0))
        (latin1_lower (lit ''Hola, quiero el PRECIO de la reserva''))
   \<and> \<not> any_in (snd (QUERY_CLASSIFICATIONS ! 1))
        (latin1_lower (lit ''Hola, quiero el PRECIO de la reserva''))
   \<and> any_in (snd (QUERY_CLASSIFICATIONS ! 6))
        (latin1_lower (lit ''Hola, quiero el PRECIO de la reserva''))
   \<and> classify_query latin1_lower (lit ''Hola, quiero el PRECIO de la reserva'') = lit ''reserva''
   \<and> \<not> (\<exists>e\<in>set QUERY_CLASSIFICATIONS. any_in (snd e) (latin1_lower []))
   \<and> classify_query latin1_lower [] = lit ''general''"
proof -
  let ?m = "lit ''Hola, quiero el PRECIO de la reserva''"
  have len: "2 < length QUERY_CLASSIFICATIONS"
    by (simp add: QUERY_CLASSIFICATIONS_def)
  have h2: "any_in (snd (QUERY_CLASSIFICATIONS ! 2)) (latin1_lower ?m)"
    by (simp add: QUERY_CLASSIFICATIONS_def any_in_def lit_def latin1_lower_def lower_cp_def)
  have h0: "\<not> any_in (snd (QUERY_CLASSIFICATIONS ! 0)) (latin1_lower ?m)"
    by (simp add: QUERY_CLASSIFICATIONS_def any_in_def lit_def latin1_lower_def lower_cp_def)
  have h1: "\<not> any_in (snd (QUERY_CLASSIFICATIONS ! 1)) (latin1_lower ?m)"
    by (simp add: QUERY_CLASSIFICATIONS_def any_in_def lit_def latin1_lower_def lower_cp_def)
  have h6: "any_in (snd (QUERY_CLASSIFICATIONS ! 6)) (latin1_lower ?m)"
    by (simp add: QUERY_CLASSIFICATIONS_def any_in_def lit_def latin1_lower_def lower_cp_def)
  have before: "\<forall>j<2. \<not> any_in (snd (QUERY_CLASSIFICATIONS ! j)) (latin1_lower ?m)"
  proof (intro allI impI)
    fix j :: nat assume "j < 2"
    then have "j = 0 \<or> j = 1" by arith
    then show "\<not> any_in (snd (QUERY_CLASSIFICATIONS ! j)) (latin1_lower ?m)"
      using h0 h1 by auto
  qed
  have res: "classify_query latin1_lower ?m = fst (QUERY_CLASSIFICATIONS ! 2)"
    using classify_query_first_match [of latin1_lower ?m] len h2 before by blast
  have name: "fst (QUERY_CLASSIFICATIONS ! 2) = lit ''reserva''"
    by (simp add: QUERY_CLASSIFICATIONS_def)
  have none: "\<forall>e\<in>set QUERY_CLASSIFICATIONS. \<not> any_in (snd e) (latin1_lower [])"
    by (simp add: QUERY_CLASSIFICATIONS_def any_in_def lit_def latin1_lower_def)
  have gen: "classify_query latin1_lower [] = lit ''general''"
    using classify_query_first_match [of latin1_lower "[]"] none by blast
  show ?thesis using len h2 h0 h1 h6 res name none gen by simp
qed

section \<open>The judge\<close>

lemma is_useful_response_truthy:
  "is_useful_response lower digit response query_type \<Longrightarrow> truthy response"
  by (auto simp: is_useful_response_def truthy_def split: option.splits if_splits)

text \<open>
  Claim C6. The judge answers \<open>False\<close> for an absent response and for one shorter than
  50 characters, whatever the label, the lowering function and the digit class: no
  other rule is consulted.
\<close>

theorem is_useful_response_short:
  "response = None \<or> (\<exists>r. response = Some r \<and> length r < 50)
   \<Longrightarrow> is_useful_response lower digit response query_type = False"
  by (auto simp: is_useful_response_def)

theorem is_useful_response_short_witness:
  "length (lit ''el costo es S/. 450.00'') < 50
   \<and> is_useful_response latin1_lower ascii_digit (Some (lit ''el costo es S/. 450.00''))
        (lit ''costos'') = False
   \<and> is_useful_response latin1_lower ascii_digit None (lit ''costos'') = False
   \<and> is_useful_response latin1_lower ascii_digit (Some []) (lit ''general'') = False"
proof -
  have len: "length (lit ''el costo es S/. 450.00'') < 50" by (simp add: lit_def)
  show ?thesis
    using len
      is_useful_response_short [of "Some (lit ''el costo es S/. 450.00'')" latin1_lower
        ascii_digit "lit ''costos''"]
      is_useful_response_short [of None latin1_lower ascii_digit "lit ''costos''"]
      is_useful_response_short [of "Some []" latin1_lower ascii_digit "lit ''general''"]
    by simp
qed

lemma date_label_not_money:
  "query_type \<in> {lit ''fechas'', lit ''cronograma''} \<Longrightarrow> query_type \<notin> set money_labels"
  by (auto simp: money_labels_def lit_def)

lemma date_label_mem:
  "query_type \<in> {lit ''fechas'', lit ''cronograma''} \<Longrightarrow> query_type \<in> set date_labels"
  by (auto simp: date_labels_def)

lemma money_label_mem:
  "query_type \<in> {lit ''costos'', lit ''matr'' @ [237] @ lit ''cula'',
                  lit ''titulaci'' @ [243] @ lit ''n''}
   \<Longrightarrow> query_type \<in> set money_labels"
  by (auto simp: money_labels_def)

text \<open>
  Claim C7. For a response of at least 50 characters whose lowercased text contains one
  of the phrases of \<open>useless_phrases\<close>, the judge's answer is decided by the contact
  indicators alone, for every label: \<open>True\<close> when the lowercased text contains
  \<open>correo\<close>, \<open>tel\'efono\<close>, \<open>presencialmente\<close> or \<open>direcci\'on\<close>, \<open>False\<close> otherwise.
  The cost rule and the date rule are not applied: the digit class does not occur on
  the right-hand side.
\<close>

theorem is_useful_response_useless_phrase:
  "50 \<le> length r \<Longrightarrow> any_in useless_phrases (lower r) \<Longrightarrow>
   is_useful_response lower digit (Some r) query_type =
     (str_in (lit ''correo'') (lower r)
      \<or> str_in (lit ''tel'' @ [233] @ lit ''fono'') (lower r)
      \<or> str_in (lit ''presencialmente'') (lower r)
      \<or> str_in (lit ''direcci'' @ [243] @ lit ''n'') (lower r))"
  by (auto simp: is_useful_response_def Let_def)

theorem is_useful_response_useless_phrase_witness:
  "50 \<le> length (lit ''Lo siento, no puedo responder a esa consulta en este momento'')
   \<and> any_in useless_phrases
        (latin1_lower (lit ''Lo siento, no puedo responder a esa consulta en este momento''))
   \<and> is_useful_response latin1_lower ascii_digit
        (Some (lit ''Lo siento, no puedo responder a esa consulta en este momento''))
        (lit ''general'') = False
   \<and> 50 \<le> length (lit ''Lo siento, no puedo responder; escriba al CORREO info@iestpjva.edu.pe'')
   \<and> any_in useless_phrases
        (latin1_lower
           (lit ''Lo siento, no puedo responder; escriba al CORREO info@iestpjva.edu.pe''))
   \<and> is_useful_response latin1_lower ascii_digit
        (Some (lit ''Lo siento, no puedo responder; escriba al CORREO info@iestpjva.edu.pe''))
        (lit ''fechas'') = True"
proof -
  let ?a = "lit ''Lo siento, no puedo responder a esa consulta en este momento''"
  let ?b = "lit ''Lo siento, no puedo responder; escriba al CORREO info@iestpjva.edu.pe''"
  have la: "50 \<le> length ?a" and lb: "50 \<le> length ?b"
    by (simp_all add: lit_def)
  have ua: "any_in useless_phrases (latin1_lower ?a)"
    by (simp add: useless_phrases_def any_in_def lit_def latin1_lower_def lower_cp_def)
  have ub: "any_in useless_phrases (latin1_lower ?b)"
    by (simp add: useless_phrases_def any_in_def lit_def latin1_lower_def lower_cp_def)
  have ca: "\<not> (str_in (lit ''correo'') (latin1_lower ?a)
      \<or> str_in (lit ''tel'' @ [233] @ lit ''fono'') (latin1_lower ?a)
      \<or> str_in (lit ''presencialmente'') (latin1_lower ?a)
      \<or> str_in (lit ''direcci'' @ [243] @ lit ''n'') (latin1_lower ?a))"
    by (simp add: lit_def latin1_lower_def lower_cp_def)
  have cb: "str_in (lit ''correo'') (latin1_lower ?b)"
    by (simp add: lit_def latin1_lower_def lower_cp_def)
  have ra: "is_useful_response latin1_lower ascii_digit (Some ?a) (lit ''general'') = False"
    using is_useful_response_useless_phrase [where lower = latin1_lower and r = "?a"
        and digit = ascii_digit and query_type = "lit ''general''", OF la ua] ca
    by blast
  have rb: "is_useful_response latin1_lower ascii_digit (Some ?b) (lit ''fechas'') = True"
    using is_useful_response_useless_phrase [where lower = latin1_lower and r = "?b"
        and digit = ascii_digit and query_type = "lit ''fechas''", OF lb ub] cb
    by blast
  show ?thesis using la lb ua ub ra rb by blast
qed

text \<open>
  Claim C8. For the labels \<open>costos\<close>, \<open>matr\'icula\<close> and \<open>titulaci\'on\<close>, a response of
  at least 50 characters with no phrase of \<open>useless_phrases\<close>, whose lowercased text
  mentions \<open>costo\<close>, \<open>pago\<close> or \<open>precio\<close> and in which the pattern
  \<open>s/\.|soles|\d+(\.\d+)?\<close> finds nothing, is judged not useful.
  (\<open>re_search_money\<close> above says what the pattern finds: \<open>s/.\<close>, \<open>soles\<close> or a digit.)
\<close>

theorem is_useful_response_cost_without_amount:
  "query_type \<in> {lit ''costos'', lit ''matr'' @ [237] @ lit ''cula'',
                  lit ''titulaci'' @ [243] @ lit ''n''} \<Longrightarrow>
   50 \<le> length r \<Longrightarrow>
   \<not> any_in useless_phrases (lower r) \<Longrightarrow>
   str_in (lit ''costo'') (lower r) \<or> str_in (lit ''pago'') (lower r)
     \<or> str_in (lit ''precio'') (lower r) \<Longrightarrow>
   \<not> re_search digit money_re (lower r) \<Longrightarrow>
   is_useful_response lower digit (Some r) query_type = False"
  using money_label_mem [of query_type]
  by (auto simp: is_useful_response_def Let_def)

theorem is_useful_response_cost_without_amount_witness:
  "lit ''costos'' \<in> {lit ''costos'', lit ''matr'' @ [237] @ lit ''cula'',
                      lit ''titulaci'' @ [243] @ lit ''n''}
   \<and> 50 \<le> length (lit ''El costo depende del programa de estudios que elija cada estudiante'')
   \<and> \<not> any_in useless_phrases
        (latin1_lower
           (lit ''El costo depende del programa de estudios que elija cada estudiante''))
   \<and> str_in (lit ''costo'')
        (latin1_lower
           (lit ''El costo depende del programa de estudios que elija cada estudiante''))
   \<and> \<not> re_search ascii_digit money_re
        (latin1_lower
           (lit ''El costo depende del programa de estudios que elija cada estudiante''))
   \<and> is_useful_response latin1_lower ascii_digit
        (Some (lit ''El costo depende del programa de estudios que elija cada estudiante''))
        (lit ''costos'') = False"
proof -
  let ?r = "lit ''El costo depende del programa de estudios que elija cada estudiante''"
  have lab: "lit ''costos'' \<in> {lit ''costos'', lit ''matr'' @ [237] @ lit ''cula'',
                      lit ''titulaci'' @ [243] @ lit ''n''}"
    by simp
  have len: "50 \<le> length ?r" by (simp add: lit_def)
  have nu: "\<not> any_in useless_phrases (latin1_lower ?r)"
    by (simp add: useless_phrases_def any_in_def lit_def latin1_lower_def lower_cp_def)
  have cw: "str_in (lit ''costo'') (latin1_lower ?r)"
    by (simp add: lit_def latin1_lower_def lower_cp_def)
  have nm: "\<not> re_search ascii_digit money_re (latin1_lower ?r)"
    unfolding re_search_money
    by (simp add: lit_def latin1_lower_def lower_cp_def ascii_digit_def)
  have res: "is_useful_response latin1_lower ascii_digit (Some ?r) (lit ''costos'') = False"
    using is_useful_response_cost_without_amount [where lower = latin1_lower and r = "?r"
        and digit = ascii_digit and query_type = "lit ''costos''", OF lab len nu _ nm] cw
    by blast
  show ?thesis using lab len nu cw nm res by blast
qed

text \<open>
  Claim C9. For the labels \<open>fechas\<close> and \<open>cronograma\<close>, a response that reaches the
  date rule (at least 50 characters, no phrase of \<open>useless_phrases\<close>; the cost rule
  does not concern these labels) is judged useful exactly when the pattern \<open>\d{1,2}\<close>
  finds something in the lowercased text or a month name occurs in it: with neither it
  is rejected, otherwise the date rule lets it through and the judge answers \<open>True\<close>.
  (\<open>re_search_date\<close> above: the pattern finds something exactly when there is a digit.)
\<close>

theorem is_useful_response_dates:
  "query_type \<in> {lit ''fechas'', lit ''cronograma''} \<Longrightarrow>
   50 \<le> length r \<Longrightarrow>
   \<not> any_in useless_phrases (lower r) \<Longrightarrow>
   is_useful_response lower digit (Some r) query_type =
     (re_search digit date_re (lower r) \<or> any_in months (lower r))"
  using date_label_not_money [of query_type] date_label_mem [of query_type]
  by (auto simp: is_useful_response_def Let_def)

theorem is_useful_response_dates_witness:
  "lit ''fechas'' \<in> {lit ''fechas'', lit ''cronograma''}
   \<and> 50 \<le> length (lit ''Las fechas se publicaran pronto en la pagina web del instituto'')
   \<and> \<not> any_in useless_phrases
        (latin1_lower (lit ''Las fechas se publicaran pronto en la pagina web del instituto''))
   \<and> is_useful_response latin1_lower ascii_digit
        (Some (lit ''Las fechas se publicaran pronto en la pagina web del instituto''))
        (lit ''fechas'') = False
   \<and> 50 \<le> length (lit ''El plazo para la inscripcion vence el 15 de marzo del presente'')
   \<and> \<not> any_in useless_phrases
        (latin1_lower (lit ''El plazo para la inscripcion vence el 15 de marzo del presente''))
   \<and> is_useful_response latin1_lower ascii_digit
        (Some (lit ''El plazo para la inscripcion vence el 15 de marzo del presente''))
        (lit ''fechas'') = True"
proof -
  let ?a = "lit ''Las fechas se publicaran pronto en la pagina web del instituto''"
  let ?b = "lit ''El plazo para la inscripcion vence el 15 de marzo del presente''"
  have lab: "lit ''fechas'' \<in> {lit ''fechas'', lit ''cronograma''}" by simp
  have la: "50 \<le> length ?a" and lb: "50 \<le> length ?b"
    by (simp_all add: lit_def)
  have ua: "\<not> any_in useless_phrases (latin1_lower ?a)"
    by (simp add: useless_phrases_def any_in_def lit_def latin1_lower_def lower_cp_def)
  have ub: "\<not> any_in useless_phrases (latin1_lower ?b)"
    by (simp add: useless_phrases_def any_in_def lit_def latin1_lower_def lower_cp_def)
  have da: "\<not> re_search ascii_digit date_re (latin1_lower ?a)"
    unfolding re_search_date
    by (simp add: lit_def latin1_lower_def lower_cp_def ascii_digit_def)
  have ma: "\<not> any_in months (latin1_lower ?a)"
    by (simp add: months_def any_in_def lit_def latin1_lower_def lower_cp_def)
  have db: "re_search ascii_digit date_re (latin1_lower ?b)"
    unfolding re_search_date
    by (simp add: lit_def latin1_lower_def lower_cp_def ascii_digit_def)
  have ra: "is_useful_response latin1_lower ascii_digit (Some ?a) (lit ''fechas'') = False"
    using is_useful_response_dates [where lower = latin1_lower and r = "?a"
        and digit = ascii_digit and query_type = "lit ''fechas''", OF lab la ua] da ma
    by blast
  have rb: "is_useful_response latin1_lower ascii_digit (Some ?b) (lit ''fechas'') = True"
    using is_useful_response_dates [where lower = latin1_lower and r = "?b"
        and digit = ascii_digit and query_type = "lit ''fechas''", OF lab lb ub] db
    by blast
  show ?thesis using lab la lb ua ub ra rb by blast
qed

section \<open>The chain runner\<close>

lemma handle_gemini_error_calls: "calls (handle_gemini_error env e st) = calls st"
  by (simp add: handle_gemini_error_def Let_def split: prod.splits)

lemma call_openrouter_log:
  "call_openrouter env m um pc wc h st = (r, st') \<Longrightarrow>
   calls st' = calls st @ [Call (lit ''openrouter'') m r]"
  by (auto simp: call_openrouter_def log_call_def split: prod.splits)

lemma call_gemini_log:
  "call_gemini env m um pc wc h st = (r, st') \<Longrightarrow>
   calls st' = calls st @ [Call (lit ''gemini'') m r]"
  by (auto simp: call_gemini_def log_call_def handle_gemini_error_calls Let_def
      split: prod.splits gemini_outcome.splits)

lemma chain_loop_result:
  "chain_loop env prov um pc wc h qt ms st = (res, st') \<Longrightarrow>
   res = None \<or> is_useful_response (str_lower env) (re_digit env) res qt"
proof (induction ms arbitrary: st)
  case Nil
  then show ?case by simp
next
  case (Cons m ms)
  then show ?case
    by (auto split: prod.splits if_splits)
qed

lemma chain_loop_log:
  "chain_loop env prov um pc wc h qt ms st = (res, st') \<Longrightarrow>
   \<exists>new. calls st' = calls st @ new
     \<and> map model new = take (length new) ms
     \<and> (\<forall>c\<in>set new. provider c =
           (if prov = lit ''openrouter'' then lit ''openrouter'' else lit ''gemini''))
     \<and> (case res of
          None \<Rightarrow> length new = length ms
            \<and> (\<forall>c\<in>set new. \<not> is_useful_response (str_lower env) (re_digit env) (returned c) qt)
        | Some r \<Rightarrow> (\<exists>k. length new = Suc k \<and> returned (new ! k) = Some r
            \<and> is_useful_response (str_lower env) (re_digit env) (Some r) qt
            \<and> (\<forall>j<k. \<not> is_useful_response (str_lower env) (re_digit env)
                        (returned (new ! j)) qt)))"
proof (induction ms arbitrary: st)
  case Nil
  then show ?case by simp
next
  case (Cons m ms)
  let ?U = "\<lambda>x. is_useful_response (str_lower env) (re_digit env) x qt"
  let ?p = "if prov = lit ''openrouter'' then lit ''openrouter'' else lit ''gemini''"
  obtain r st1 where step:
    "(if prov = lit ''openrouter'' then call_openrouter env m um pc wc h st
      else call_gemini env m um pc wc h st) = (r, st1)"
    by (cases "if prov = lit ''openrouter'' then call_openrouter env m um pc wc h st
      else call_gemini env m um pc wc h st") auto
  then have log1: "calls st1 = calls st @ [Call ?p m r]"
    by (auto split: if_splits dest: call_openrouter_log call_gemini_log)
  show ?case
  proof (cases "truthy r \<and> ?U r")
    case True
    then have "res = r" "st' = st1" using Cons.prems step by auto
    moreover obtain x where "r = Some x" using True by (cases r) (auto simp: truthy_def)
    ultimately have
      "calls st' = calls st @ [Call ?p m r] \<and>
       map model [Call ?p m r] = take (length [Call ?p m r]) (m # ms) \<and>
       (\<forall>c\<in>set [Call ?p m r]. provider c = ?p) \<and>
       (\<exists>k. length [Call ?p m r] = Suc k \<and> returned ([Call ?p m r] ! k) = Some x
          \<and> ?U (Some x) \<and> (\<forall>j<k. \<not> ?U (returned ([Call ?p m r] ! j))))"
      using log1 True by auto
    then show ?thesis using \<open>res = r\<close> \<open>r = Some x\<close> by (intro exI [of _ "[Call ?p m r]"]) simp
  next
    case False
    then have notU: "\<not> ?U r" using is_useful_response_truthy by blast
    from False have rest: "chain_loop env prov um pc wc h qt ms st1 = (res, st')"
      using Cons.prems step by (auto split: if_splits)
    from Cons.IH [OF rest] obtain new where new:
      "calls st' = calls st1 @ new"
      "map model new = take (length new) ms"
      "\<forall>c\<in>set new. provider c = ?p"
      "case res of
          None \<Rightarrow> length new = length ms \<and> (\<forall>c\<in>set new. \<not> ?U (returned c))
        | Some r \<Rightarrow> (\<exists>k. length new = Suc k \<and> returned (new ! k) = Some r
            \<and> ?U (Some r) \<and> (\<forall>j<k. \<not> ?U (returned (new ! j))))"
      by blast
    let ?new = "Call ?p m r # new"
    have a: "calls st' = calls st @ ?new" using new(1) log1 by simp
    have b: "map model ?new = take (length ?new) (m # ms)" using new(2) by simp
    have c: "\<forall>c\<in>set ?new. provider c = ?p" using new(3) by simp
    have d: "case res of
          None \<Rightarrow> length ?new = length (m # ms) \<and> (\<forall>c\<in>set ?new. \<not> ?U (returned c))
        | Some r \<Rightarrow> (\<exists>k. length ?new = Suc k \<and> returned (?new ! k) = Some r
            \<and> ?U (Some r) \<and> (\<forall>j<k. \<not> ?U (returned (?new ! j))))"
    proof (cases res)
      case None
      then show ?thesis using new(4) notU by simp
    next
      case (Some y)
      then obtain k where k: "length new = Suc k" "returned (new ! k) = Some y"
        "?U (Some y)" "\<forall>j<k. \<not> ?U (returned (new ! j))"
        using new(4) by auto
      have "\<forall>j<Suc k. \<not> ?U (returned (?new ! j))"
      proof (intro allI impI)
        fix j assume "j < Suc k"
        then show "\<not> ?U (returned (?new ! j))"
          using k(4) notU by (cases j) auto
      qed
      then have "length ?new = Suc (Suc k) \<and> returned (?new ! Suc k) = Some y
            \<and> ?U (Some y) \<and> (\<forall>j<Suc k. \<not> ?U (returned (?new ! j)))"
        using k by simp
      then show ?thesis using Some by (simp only: option.case) blast
    qed
    show ?thesis using a b c d by blast
  qed
qed

text \<open>
  Claim C3. A run of the chain runner appends to the call log one entry per call, and
  the models called are the first models of the provider's list, in list order. When it
  returns a response, that response is the answer of the last call, at index \<open>k\<close>, it
  is judged useful, no earlier answer was, and exactly \<open>k + 1\<close> calls were made, so no
  later model is invoked. When it returns \<open>None\<close>, every model of the list was called
  and no answer (absent ones included) was judged useful.
\<close>

theorem run_model_chain_first_useful:
  assumes "run_model_chain env prov um pc wc h qt st = (res, st')"
  shows "\<exists>new. calls st' = calls st @ new
     \<and> map model new = take (length new) (chain_models prov st)
     \<and> (case res of
          None \<Rightarrow> length new = length (chain_models prov st)
            \<and> (\<forall>c\<in>set new. \<not> is_useful_response (str_lower env) (re_digit env) (returned c) qt)
        | Some r \<Rightarrow> (\<exists>k. length new = Suc k \<and> returned (new ! k) = Some r
            \<and> is_useful_response (str_lower env) (re_digit env) (Some r) qt
            \<and> (\<forall>j<k. \<not> is_useful_response (str_lower env) (re_digit env)
                        (returned (new ! j)) qt)))"
  using chain_loop_log [OF assms [unfolded run_model_chain_def]] by blast

section \<open>The orchestrator\<close>

lemma run_model_chain_result:
  "run_model_chain env prov um pc wc h qt st = (res, st') \<Longrightarrow>
   res = None \<or> is_useful_response (str_lower env) (re_digit env) res qt"
  unfolding run_model_chain_def by (rule chain_loop_result)

lemma run_model_chain_openrouter_log:
  assumes "run_model_chain env (lit ''openrouter'') um pc wc h qt st = (res, st')"
  shows "filter (\<lambda>c. provider c = lit ''gemini'') (calls st')
         = filter (\<lambda>c. provider c = lit ''gemini'') (calls st)"
proof -
  have ne: "lit ''openrouter'' \<noteq> lit ''gemini''" by (simp add: lit_def)
  from chain_loop_log [OF assms [unfolded run_model_chain_def]] obtain new where
    "calls st' = calls st @ new" "\<forall>c\<in>set new. provider c = lit ''openrouter''"
    by auto
  then show ?thesis using ne by (simp add: filter_empty_conv)
qed

text \<open>
  Claim C2. When the OpenRouter chain, run on the first 200000 characters of the PDF
  context, returns a response that is judged useful for the label of the message,
  \<open>generate_response\<close> returns exactly that response and the state the chain left, and
  the call log has no new Gemini entry: Gemini is not invoked.
\<close>

theorem generate_response_openrouter_first:
  assumes "run_model_chain env (lit ''openrouter'') user_message (take 200000 pdf_context)
             web_context history (classify_query (str_lower env) user_message) st
           = (Some r, st1)"
    and "is_useful_response (str_lower env) (re_digit env) (Some r)
           (classify_query (str_lower env) user_message)"
  shows "generate_response env user_message pdf_context web_context history st = (Some r, st1)
     \<and> filter (\<lambda>c. provider c = lit ''gemini'') (calls st1)
       = filter (\<lambda>c. provider c = lit ''gemini'') (calls st)"
proof -
  have "truthy (Some r)" using assms(2) by (rule is_useful_response_truthy)
  then have "generate_response env user_message pdf_context web_context history st
             = (Some r, st1)"
    using assms by (simp add: generate_response_def Let_def)
  then show ?thesis using run_model_chain_openrouter_log [OF assms(1)] by simp
qed

text \<open>
  Claim C1. When the OpenRouter chain gives no useful response, and the Gemini chain is
  either not run (\<open>_can_call_gemini\<close> answers \<open>False\<close>: no key, or cooldown) or gives no
  useful response either, \<open>generate_response\<close> returns \<open>None\<close>: the final
  \<open>return or_response\<close> never hands out a candidate that failed the judge.
\<close>

theorem generate_response_exhausted:
  assumes "run_model_chain env (lit ''openrouter'') user_message (take 200000 pdf_context)
             web_context history (classify_query (str_lower env) user_message) st
           = (or_response, st1)"
    and "\<not> is_useful_response (str_lower env) (re_digit env) or_response
           (classify_query (str_lower env) user_message)"
    and "can_call_gemini env st1 = (ok, st2)"
    and "ok \<longrightarrow> \<not> is_useful_response (str_lower env) (re_digit env)
           (fst (run_model_chain env (lit ''gemini'') user_message pdf_context web_context
                   history (classify_query (str_lower env) user_message) st2))
           (classify_query (str_lower env) user_message)"
  shows "fst (generate_response env user_message pdf_context web_context history st) = None"
proof -
  let ?qt = "classify_query (str_lower env) user_message"
  have or_none: "or_response = None"
    using run_model_chain_result [OF assms(1)] assms(2) by blast
  show ?thesis
  proof (cases ok)
    case False
    then show ?thesis
      using assms(1,3) or_none by (simp add: generate_response_def Let_def truthy_def)
  next
    case True
    obtain gm st3 where gm: "run_model_chain env (lit ''gemini'') user_message pdf_context
        web_context history ?qt st2 = (gm, st3)"
      by (cases "run_model_chain env (lit ''gemini'') user_message pdf_context
        web_context history ?qt st2") auto
    then have "gm = None"
      using run_model_chain_result [OF gm] assms(4) True by auto
    then show ?thesis
      using assms(1,3) or_none True gm
      by (simp add: generate_response_def Let_def truthy_def)
  qed
qed

text \<open>
  Claim C10. Every response that \<open>generate_response\<close> returns is judged useful for the
  label classified from the user message.
\<close>

theorem generate_response_only_useful:
  assumes "fst (generate_response env user_message pdf_context web_context history st) = Some r"
  shows "is_useful_response (str_lower env) (re_digit env) (Some r)
           (classify_query (str_lower env) user_message)"
proof -
  let ?qt = "classify_query (str_lower env) user_message"
  obtain orr st1 where or: "run_model_chain env (lit ''openrouter'') user_message
      (take 200000 pdf_context) web_context history ?qt st = (orr, st1)"
    by (cases "run_model_chain env (lit ''openrouter'') user_message
      (take 200000 pdf_context) web_context history ?qt st") auto
  obtain ok st2 where gate: "can_call_gemini env st1 = (ok, st2)"
    by (cases "can_call_gemini env st1") auto
  obtain gm st3 where gm: "run_model_chain env (lit ''gemini'') user_message pdf_context
      web_context history ?qt st2 = (gm, st3)"
    by (cases "run_model_chain env (lit ''gemini'') user_message pdf_context
      web_context history ?qt st2") auto
  note r1 = run_model_chain_result [OF or] and r2 = run_model_chain_result [OF gm]
  show ?thesis
    using assms or gate gm r1 r2
    by (auto simp: generate_response_def Let_def split: if_splits)
qed

section \<open>The rate limiter's backoff\<close>


lemma handle_gemini_error_other:
  "\<not> is_throttling e \<Longrightarrow> handle_gemini_error env e st = st"
  by (simp add: handle_gemini_error_def)

lemma handle_gemini_error_counter:
  "gemini_consecutive_429 (handle_gemini_error env e st)
   = gemini_consecutive_429 st + (if is_throttling e then 1 else 0)"
  by (simp add: handle_gemini_error_def Let_def split: prod.splits)


lemma call_openrouter_counter:
  "gemini_consecutive_429 (snd (call_openrouter env m um pc wc h st))
   = gemini_consecutive_429 st"
  by (simp add: call_openrouter_def log_call_def split: prod.splits)

lemma can_call_gemini_counter:
  "gemini_consecutive_429 (snd (can_call_gemini env st)) = gemini_consecutive_429 st"
  by (simp add: can_call_gemini_def Let_def split: prod.splits)

lemma call_gemini_counter:
  "gemini_consecutive_429 (snd (call_gemini env m um pc wc h st))
   = gemini_consecutive_429 st
     + (case fst (gemini_generate env m um pc wc h (world st)) of
          Raised e \<Rightarrow> if is_throttling e then 1 else 0
        | _ \<Rightarrow> 0)"
  by (simp add: call_gemini_def log_call_def handle_gemini_error_counter Let_def
      split: prod.splits gemini_outcome.splits)


section \<open>Concrete runs\<close>

lemma question_label:
  "classify_query latin1_lower question = lit ''matr'' @ [237] @ lit ''cula''"
  by (simp add: question_def classify_query_def QUERY_CLASSIFICATIONS_def any_in_def lit_def
      latin1_lower_def lower_cp_def)

lemma answer_short_useless:
  "\<not> is_useful_response latin1_lower ascii_digit (Some answer_short) qt"
  by (simp add: is_useful_response_def answer_short_def lit_def)

lemma answer_decline_useless:
  "\<not> is_useful_response latin1_lower ascii_digit (Some answer_decline) qt"
proof -
  have "50 \<le> length answer_decline"
    by (simp add: answer_decline_def lit_def)
  moreover have "any_in useless_phrases (latin1_lower answer_decline)"
    by (simp add: answer_decline_def useless_phrases_def any_in_def lit_def latin1_lower_def
        lower_cp_def)
  moreover have "\<not> (str_in (lit ''correo'') (latin1_lower answer_decline)
      \<or> str_in (lit ''tel'' @ [233] @ lit ''fono'') (latin1_lower answer_decline)
      \<or> str_in (lit ''presencialmente'') (latin1_lower answer_decline)
      \<or> str_in (lit ''direcci'' @ [243] @ lit ''n'') (latin1_lower answer_decline))"
    by (simp add: answer_decline_def lit_def latin1_lower_def lower_cp_def)
  ultimately show ?thesis
    by (auto simp: is_useful_response_def Let_def)
qed

lemma answer_useful_useful:
  "is_useful_response latin1_lower ascii_digit (Some answer_useful)
     (classify_query latin1_lower question)"
proof -
  have "50 \<le> length answer_useful"
    by (simp add: answer_useful_def lit_def)
  moreover have "\<not> any_in useless_phrases (latin1_lower answer_useful)"
    by (simp add: answer_useful_def useless_phrases_def any_in_def lit_def latin1_lower_def
        lower_cp_def)
  moreover have "re_search ascii_digit money_re (latin1_lower answer_useful)"
    unfolding re_search_money
    by (simp add: answer_useful_def lit_def latin1_lower_def lower_cp_def ascii_digit_def)
  moreover have "classify_query latin1_lower question \<notin> set date_labels"
    by (simp add: question_label date_labels_def lit_def)
  ultimately show ?thesis
    by (auto simp: is_useful_response_def Let_def)
qed

lemma none_useless: "\<not> is_useful_response lower digit None qt"
  by (simp add: is_useful_response_def)

lemma answers_nonempty:
  "answer_short \<noteq> []" "answer_useful \<noteq> []" "answer_decline \<noteq> []"
  by (simp_all add: answer_short_def answer_useful_def answer_decline_def lit_def)

lemma provider_names: "lit ''gemini'' \<noteq> lit ''openrouter''"
  by (simp add: lit_def)

lemmas run_simps =
  run_model_chain_def chain_models_def init_def OPENROUTER_MODELS_def GEMINI_MODELS_def
  script_env_def call_openrouter_def call_gemini_def log_call_def truthy_def
  can_call_gemini_def handle_gemini_error_def GEMINI_COOLDOWN_def Let_def
  answer_short_useless answer_decline_useless answer_useful_useful none_useless
  answers_nonempty provider_names

lemma throttling_messages:
  "is_throttling (lit ''429 Resource exhausted'')"
  "is_throttling (lit ''429 Too Many Requests'')"
  by (simp_all add: is_throttling_def lit_def)

lemma key_nonempty: "lit ''key'' \<noteq> []"
  by (simp add: lit_def)

lemma second_useful_chain:
  "run_model_chain (script_env (lit ''key'')) (lit ''openrouter'') question [] [] ()
     (classify_query latin1_lower question) (init world_second_useful)
   = (Some answer_useful, state_second_useful)"
  by (simp add: run_simps world_second_useful_def state_second_useful_def)

lemma exhausted_openrouter_chain:
  "run_model_chain (script_env (lit ''key'')) (lit ''openrouter'') question [] [] ()
     (classify_query latin1_lower question) (init world_exhausted)
   = (None, state_openrouter_exhausted)"
  by (simp add: run_simps world_exhausted_def state_openrouter_exhausted_def)

lemma exhausted_gate:
  "can_call_gemini (script_env (lit ''key'')) state_openrouter_exhausted
   = (True, state_openrouter_exhausted)"
  by (simp add: run_simps state_openrouter_exhausted_def key_nonempty)

lemma exhausted_gemini_chain:
  "run_model_chain (script_env (lit ''key'')) (lit ''gemini'') question [] [] ()
     (classify_query latin1_lower question) state_openrouter_exhausted
   = (None, state_both_exhausted)"
  by (simp add: run_simps state_openrouter_exhausted_def state_both_exhausted_def
      throttling_messages)

theorem run_model_chain_first_useful_witness:
  "run_model_chain (script_env (lit ''key'')) (lit ''openrouter'') question [] [] ()
     (classify_query latin1_lower question) (init world_second_useful)
   = (Some answer_useful, state_second_useful)
   \<and> (\<exists>new. calls state_second_useful = calls (init world_second_useful) @ new
        \<and> map model new
          = take (length new) (chain_models (lit ''openrouter'') (init world_second_useful))
        \<and> (\<exists>k. length new = Suc k \<and> returned (new ! k) = Some answer_useful
             \<and> is_useful_response latin1_lower ascii_digit (Some answer_useful)
                 (classify_query latin1_lower question)
             \<and> (\<forall>j<k. \<not> is_useful_response latin1_lower ascii_digit (returned (new ! j))
                         (classify_query latin1_lower question))))
   \<and> length (calls state_second_useful) = 2
   \<and> length (chain_models (lit ''openrouter'') (init world_second_useful)) = 3"
proof -
  note ev = second_useful_chain
  have env: "str_lower (script_env (lit ''key'')) = latin1_lower"
    "re_digit (script_env (lit ''key'')) = ascii_digit"
    by (simp_all add: script_env_def)
  have c: "\<exists>new. calls state_second_useful = calls (init world_second_useful) @ new
        \<and> map model new
          = take (length new) (chain_models (lit ''openrouter'') (init world_second_useful))
        \<and> (\<exists>k. length new = Suc k \<and> returned (new ! k) = Some answer_useful
             \<and> is_useful_response latin1_lower ascii_digit (Some answer_useful)
                 (classify_query latin1_lower question)
             \<and> (\<forall>j<k. \<not> is_useful_response latin1_lower ascii_digit (returned (new ! j))
                         (classify_query latin1_lower question)))"
    using run_model_chain_first_useful [OF ev] by (simp only: env option.case)
  have n: "length (calls state_second_useful) = 2"
    "length (chain_models (lit ''openrouter'') (init world_second_useful)) = 3"
    by (simp_all add: state_second_useful_def chain_models_def init_def OPENROUTER_MODELS_def)
  show ?thesis using ev c n by blast
qed

theorem generate_response_openrouter_first_witness:
  "run_model_chain (script_env (lit ''key'')) (lit ''openrouter'') question
     (take 200000 []) [] () (classify_query (str_lower (script_env (lit ''key''))) question)
     (init world_second_useful)
   = (Some answer_useful, state_second_useful)
   \<and> is_useful_response (str_lower (script_env (lit ''key''))) (re_digit (script_env (lit ''key'')))
       (Some answer_useful) (classify_query (str_lower (script_env (lit ''key''))) question)
   \<and> generate_response (script_env (lit ''key'')) question [] [] () (init world_second_useful)
     = (Some answer_useful, state_second_useful)
   \<and> filter (\<lambda>c. provider c = lit ''gemini'') (calls state_second_useful) = []"
proof -
  have env: "str_lower (script_env (lit ''key'')) = latin1_lower"
    "re_digit (script_env (lit ''key'')) = ascii_digit"
    by (simp_all add: script_env_def)
  have ev: "run_model_chain (script_env (lit ''key'')) (lit ''openrouter'') question
     (take 200000 []) [] () (classify_query (str_lower (script_env (lit ''key''))) question)
     (init world_second_useful)
   = (Some answer_useful, state_second_useful)"
    using second_useful_chain by (simp add: env)
  have us: "is_useful_response (str_lower (script_env (lit ''key'')))
       (re_digit (script_env (lit ''key'')))
       (Some answer_useful) (classify_query (str_lower (script_env (lit ''key''))) question)"
    using answer_useful_useful by (simp add: env)
  have "calls (init world_second_useful) = []" by (simp add: init_def)
  then show ?thesis
    using generate_response_openrouter_first [OF ev us] ev us by simp
qed

theorem generate_response_exhausted_witness:
  "run_model_chain (script_env (lit ''key'')) (lit ''openrouter'') question
     (take 200000 []) [] () (classify_query (str_lower (script_env (lit ''key''))) question)
     (init world_exhausted)
   = (None, state_openrouter_exhausted)
   \<and> can_call_gemini (script_env (lit ''key'')) state_openrouter_exhausted
     = (True, state_openrouter_exhausted)
   \<and> run_model_chain (script_env (lit ''key'')) (lit ''gemini'') question [] [] ()
       (classify_query (str_lower (script_env (lit ''key''))) question)
       state_openrouter_exhausted
     = (None, state_both_exhausted)
   \<and> fst (generate_response (script_env (lit ''key'')) question [] [] ()
            (init world_exhausted)) = None"
proof -
  let ?E = "script_env (lit ''key'')"
  have env: "str_lower ?E = latin1_lower" "re_digit ?E = ascii_digit"
    by (simp_all add: script_env_def)
  have h1: "run_model_chain ?E (lit ''openrouter'') question
     (take 200000 []) [] () (classify_query (str_lower ?E) question) (init world_exhausted)
   = (None, state_openrouter_exhausted)"
    using exhausted_openrouter_chain by (simp add: env)
  have h2: "\<not> is_useful_response (str_lower ?E) (re_digit ?E) None
      (classify_query (str_lower ?E) question)"
    by (rule none_useless)
  note h3 = exhausted_gate
  have gm: "run_model_chain ?E (lit ''gemini'') question [] [] ()
       (classify_query (str_lower ?E) question) state_openrouter_exhausted
     = (None, state_both_exhausted)"
    using exhausted_gemini_chain by (simp add: env)
  have h4: "True \<longrightarrow> \<not> is_useful_response (str_lower ?E) (re_digit ?E)
      (fst (run_model_chain ?E (lit ''gemini'') question [] [] ()
         (classify_query (str_lower ?E) question) state_openrouter_exhausted))
      (classify_query (str_lower ?E) question)"
    using gm none_useless by simp
  show ?thesis
    using generate_response_exhausted [OF h1 h2 h3 h4] h1 h3 gm by blast
qed

lemma gemini_answers_run:
  "fst (generate_response (script_env (lit ''key'')) question [] [] ()
          (init world_gemini_answers)) = Some answer_useful"
  by (simp add: generate_response_def run_simps world_gemini_answers_def key_nonempty)

theorem generate_response_only_useful_witness:
  "fst (generate_response (script_env (lit ''key'')) question [] [] ()
          (init world_gemini_answers)) = Some answer_useful
   \<and> is_useful_response latin1_lower ascii_digit (Some answer_useful)
       (classify_query latin1_lower question)"
proof -
  have env: "str_lower (script_env (lit ''key'')) = latin1_lower"
    "re_digit (script_env (lit ''key'')) = ascii_digit"
    by (simp_all add: script_env_def)
  show ?thesis
    using generate_response_only_useful [OF gemini_answers_run] gemini_answers_run
    by (simp add: env)
qed




end
